theory Spec2Isabelle
  imports Complex_Main "HOL-Library.Sublist"
begin

section \<open>Python values handled by \<open>CortexChat._retrieve_response\<close>\<close>

text \<open>
  The streaming loop of \<open>src/cortex_chat.py\<close> works on whatever \<open>json.loads\<close> returns,
  without checking its shape, so the value type below is the whole range of
  \<open>json.loads\<close>: \<open>None\<close>, \<open>bool\<close>, \<open>int\<close>, \<open>float\<close> (finite ones, as rationals),
  \<open>str\<close>, \<open>list\<close> and \<open>dict\<close>. A \<open>dict\<close> is an association list read with
  \<open>map_of\<close>. A \<open>str\<close> is a HOL string: its characters are the code points below 256.
\<close>

datatype json =
    JNull
  | JBool bool
  | JInt int
  | JFloat rat
  | JStr string
  | JArr "json list"
  | JObj "(string \<times> json) list"

type_synonym pydict = "(string \<times> json) list"

text \<open>
  The exceptions that can travel through the function. \<open>Timeout\<close> and
  \<open>RequestException\<close> are the two classes of \<open>requests.exceptions\<close> the function names
  (\<open>Timeout\<close> is caught first); \<open>JSONDecodeError\<close> is the class of the innermost handler;
  the others are \<open>Exception\<close> subclasses that reach the last handler.
\<close>

datatype exn =
    Timeout
  | RequestException string
  | JSONDecodeError
  | TypeError
  | AttributeError
  | KeyError
  | UnicodeDecodeError
  | OtherError string

subsection \<open>Strings\<close>

definition starts_with :: "string \<Rightarrow> string \<Rightarrow> bool" where
  \<comment> \<open>\<open>s.startswith(p)\<close>\<close>
  "starts_with p s = (take (length p) s = p)"

definition py_isspace :: "char \<Rightarrow> bool" where
  \<comment> \<open>the code points below 256 that \<open>str.strip()\<close> removes\<close>
  "py_isspace c = ((of_char c :: nat) \<in> {9, 10, 11, 12, 13, 28, 29, 30, 31, 32, 133, 160})"

definition strip :: "string \<Rightarrow> string" where
  \<comment> \<open>\<open>s.strip()\<close>\<close>
  "strip s = rev (dropWhile py_isspace (rev (dropWhile py_isspace s)))"

fun contains_str :: "string \<Rightarrow> string \<Rightarrow> bool" where
  \<comment> \<open>\<open>p in s\<close> for two strings\<close>
  "contains_str p [] = (p = [])"
| "contains_str p (c # cs) = (starts_with p (c # cs) \<or> contains_str p cs)"

fun join :: "string \<Rightarrow> string list \<Rightarrow> string" where
  \<comment> \<open>\<open>sep.join(xs)\<close>\<close>
  "join sep [] = []"
| "join sep [x] = x"
| "join sep (x # y # ys) = x @ sep @ join sep (y # ys)"

definition last_n :: "nat \<Rightarrow> 'a list \<Rightarrow> 'a list" where
  \<comment> \<open>\<open>xs[-n:]\<close> for \<open>n > 0\<close>\<close>
  "last_n n xs = drop (length xs - n) xs"

subsection \<open>Truth value, equality, membership\<close>

fun truthy :: "json \<Rightarrow> bool" where
  \<comment> \<open>\<open>bool(v)\<close>\<close>
  "truthy JNull = False"
| "truthy (JBool b) = b"
| "truthy (JInt i) = (i \<noteq> 0)"
| "truthy (JFloat r) = (r \<noteq> 0)"
| "truthy (JStr s) = (s \<noteq> [])"
| "truthy (JArr xs) = (xs \<noteq> [])"
| "truthy (JObj d) = (d \<noteq> [])"

fun num_of :: "json \<Rightarrow> rat option" where
  \<comment> \<open>the numeric value of a \<open>bool\<close>, \<open>int\<close> or \<open>float\<close>\<close>
  "num_of (JBool b) = Some (if b then 1 else 0)"
| "num_of (JInt i) = Some (of_int i)"
| "num_of (JFloat r) = Some r"
| "num_of _ = None"

function py_eq :: "json \<Rightarrow> json \<Rightarrow> bool" where
  \<comment> \<open>\<open>a == b\<close>: numbers by value (\<open>True == 1 == 1.0\<close>), lists pointwise, dicts key by key\<close>
  "py_eq a b =
     (case (a, b) of
        (JNull, JNull) \<Rightarrow> True
      | (JStr s, JStr t) \<Rightarrow> s = t
      | (JArr xs, JArr ys) \<Rightarrow> list_all2 py_eq xs ys
      | (JObj d, JObj e) \<Rightarrow>
          set (map fst d) = set (map fst e) \<and>
          list_all (\<lambda>k. case (map_of d k, map_of e k) of
                          (Some v, Some w) \<Rightarrow> py_eq v w
                        | _ \<Rightarrow> False) (map fst d)
      | _ \<Rightarrow> (case (num_of a, num_of b) of (Some x, Some y) \<Rightarrow> x = y | _ \<Rightarrow> False))"
  by pat_completeness auto
termination
proof -
  have size_map_of: "size v < Suc (size_list (size_prod (\<lambda>x. 0) size) d)"
    if "map_of d k = Some v" for d :: pydict and k v
    using that by (induction d) (auto split: if_splits)
  have size_member: "size x < Suc (size_list size xs)"
    if "x \<in> set xs" for x :: json and xs
    using that by (induction xs) auto
  show ?thesis
    by (relation "measure (\<lambda>(a, b). size a)") (auto simp: size_map_of size_member)
qed

declare py_eq.simps [simp del]

definition py_in_list :: "json \<Rightarrow> json list \<Rightarrow> bool" where
  \<comment> \<open>\<open>x in xs\<close> for a list \<open>xs\<close>\<close>
  "py_in_list x xs = list_ex (\<lambda>e. py_eq e x) xs"

subsection \<open>Operations that raise on the wrong type\<close>

definition bind :: "exn + 'a \<Rightarrow> ('a \<Rightarrow> exn + 'b) \<Rightarrow> exn + 'b" where
  \<comment> \<open>sequencing: the first exception ends the computation\<close>
  "bind m f = (case m of Inl e \<Rightarrow> Inl e | Inr x \<Rightarrow> f x)"

fun py_contains :: "json \<Rightarrow> string \<Rightarrow> exn + bool" where
  \<comment> \<open>\<open>'key' in v\<close>: a key of a dict, a substring of a str, an element of a list;
      \<open>TypeError\<close> on \<open>None\<close>, \<open>bool\<close>, \<open>int\<close>, \<open>float\<close>\<close>
  "py_contains (JObj d) k = Inr (map_of d k \<noteq> None)"
| "py_contains (JStr s) k = Inr (contains_str k s)"
| "py_contains (JArr xs) k = Inr (py_in_list (JStr k) xs)"
| "py_contains _ k = Inl TypeError"

fun py_getitem :: "json \<Rightarrow> string \<Rightarrow> exn + json" where
  \<comment> \<open>\<open>v['key']\<close>: \<open>KeyError\<close> on a dict without the key, \<open>TypeError\<close> on everything
      that is not a dict (a str or list wants an integer index)\<close>
  "py_getitem (JObj d) k = (case map_of d k of None \<Rightarrow> Inl KeyError | Some v \<Rightarrow> Inr v)"
| "py_getitem _ k = Inl TypeError"

fun py_get :: "json \<Rightarrow> string \<Rightarrow> json \<Rightarrow> exn + json" where
  \<comment> \<open>\<open>v.get('key', default)\<close>: only a dict has \<open>get\<close>\<close>
  "py_get (JObj d) k dflt = (case map_of d k of None \<Rightarrow> Inr dflt | Some v \<Rightarrow> Inr v)"
| "py_get _ k dflt = Inl AttributeError"

fun py_iter :: "json \<Rightarrow> exn + json list" where
  \<comment> \<open>\<open>for x in v\<close>: the elements of a list, the characters of a str, the keys of a dict\<close>
  "py_iter (JArr xs) = Inr xs"
| "py_iter (JStr s) = Inr (map (\<lambda>c. JStr [c]) s)"
| "py_iter (JObj d) = Inr (map JStr (remdups (map fst d)))"
| "py_iter _ = Inl TypeError"

fun py_len :: "json \<Rightarrow> exn + nat" where
  \<comment> \<open>\<open>len(v)\<close>\<close>
  "py_len (JStr s) = Inr (length s)"
| "py_len (JArr xs) = Inr (length xs)"
| "py_len (JObj d) = Inr (length (remdups (map fst d)))"
| "py_len _ = Inl TypeError"

section \<open>The collaborators of \<open>CortexChat\<close>\<close>

text \<open>
  The messages sent to Slack. Each constructor is one of the literal message layouts of
  the source (its emoji text and block structure), carrying the values the source
  formats into it.
\<close>

datatype say_msg =
    Thinking  \<comment> \<open>lines 72-83, the initial "Thinking..." message\<close>
  | ProgressUpdate "string list"  \<comment> \<open>lines 294-305, one bullet per given step\<close>
  | CompletedAll "string list"  \<comment> \<open>lines 401-412, "Completed!" with one bullet per step\<close>
  | CompletedCount nat  \<comment> \<open>lines 416-427, "Completed!" with "Finished n steps"\<close>
  | ErrorNotice string string  \<comment> \<open>lines 470-476, title and error message\<close>

datatype completion_info =
    NoInfo
  | VerifiedBadge  \<comment> \<open>":verified: answer accuracy verified by agent owner"\<close>
  | QueryCount nat  \<comment> \<open>"n SQL query" / "n SQL queries"\<close>

datatype update_msg =
    ThinkingLatest string  \<comment> \<open>lines 139-155, "Thinking..." with the latest step\<close>
  | PlanningNext nat string  \<comment> \<open>lines 259-286, step count and latest step\<close>
  | Completed nat completion_info  \<comment> \<open>lines 364-391, "Finished n steps" and the info\<close>

text \<open>
  Every call to a collaborator is recorded, in order: \<open>slack_say\<close>,
  \<open>slack_app.client.chat_update\<close> (channel, ts, message) and the three methods of
  \<open>CortexResponseParser\<close>.
\<close>

datatype call =
    Say say_msg
  | ChatUpdate string string update_msg
  | ParseSse "string list"
  | ParseJson string
  | ExtractSummary json

datatype say_outcome =
    SayRaises exn
  | SayReturns "string option"  \<comment> \<open>\<open>result.get('ts')\<close> when \<open>result\<close> has a \<open>get\<close>\<close>

record app =
  channel_id :: "string option"  \<comment> \<open>\<open>getattr(slack_app, '_channel_id', None)\<close>\<close>
  chat_update :: "call list \<Rightarrow> string \<Rightarrow> string \<Rightarrow> update_msg \<Rightarrow> exn option"
    \<comment> \<open>\<open>client.chat_update\<close> after the given earlier calls: \<open>Some e\<close> when it raises \<open>e\<close>\<close>

datatype line_read =
    Text string  \<comment> \<open>a line of the body that decodes as UTF-8\<close>
  | BadUtf8  \<comment> \<open>a non-empty line on which \<open>line.decode('utf-8')\<close> raises\<close>
  | ReadError exn  \<comment> \<open>\<open>iter_lines()\<close> raises instead of yielding a line\<close>

datatype transport =
    PostRaises exn  \<comment> \<open>\<open>requests.post\<close> raises (timeout, connection error, ...)\<close>
  | BadStatus string  \<comment> \<open>\<open>raise_for_status()\<close> raises \<open>HTTPError\<close>, a \<open>RequestException\<close>\<close>
  | Stream "line_read list"  \<comment> \<open>status 2xx, and what \<open>iter_lines()\<close> then yields\<close>

text \<open>
  \<open>CortexResponseParser\<close> is imported from a module that is not among the sources, and
  \<open>json.loads\<close>, \<open>str()\<close> of a non-string value and \<open>requests.post\<close> are library code:
  all of them are parameters of the model. A parser method may raise.
\<close>

record env =
  agent_url :: string
  pat :: string
  requests_post :: "string \<Rightarrow> string \<Rightarrow> string \<Rightarrow> transport"
    \<comment> \<open>url, token, query\<close>
  json_loads :: "string \<Rightarrow> json option"  \<comment> \<open>\<open>None\<close>: \<open>json.JSONDecodeError\<close>\<close>
  py_format :: "json \<Rightarrow> string"  \<comment> \<open>\<open>f"{v}"\<close> for a \<open>v\<close> that is not a str\<close>
  exn_text :: "exn \<Rightarrow> string"  \<comment> \<open>\<open>f"{e}"\<close> for an exception\<close>
  slack_say :: "(call list \<Rightarrow> say_msg \<Rightarrow> say_outcome) option"
  slack_app :: "app option"
  parse_sse_response :: "string list \<Rightarrow> exn + json"
  parse_json_response :: "string \<Rightarrow> exn + json"
  extract_summary :: "json \<Rightarrow> exn + pydict"

definition py_str :: "env \<Rightarrow> json \<Rightarrow> string" where
  \<comment> \<open>\<open>f"{v}"\<close>\<close>
  "py_str env v = (case v of JStr s \<Rightarrow> s | _ \<Rightarrow> py_format env v)"

section \<open>The state of one call of \<open>_retrieve_response\<close>\<close>

record details =
  planning_steps :: "json list"
  sql_queries :: json
  verification_info :: json
  verified_query_used :: json

record state =
  calls :: "call list"  \<comment> \<open>the collaborator calls made so far, oldest first\<close>
  planning_message_ts :: "string option"  \<comment> \<open>\<open>self.planning_message_ts\<close>\<close>
  planning_channel :: "string option"  \<comment> \<open>\<open>self.planning_channel\<close>\<close>
  stored :: "details option"  \<comment> \<open>the four attributes set at lines 331-334, once set\<close>
  response_lines :: "string list"
  tools_used :: "json list"
  current_thinking :: string
  planning_updates :: "json list"
  line_count :: nat
  current_event :: "string option"

definition truthy_opt :: "string option \<Rightarrow> bool" where
  \<comment> \<open>the truth value of an attribute that is \<open>None\<close> or a str\<close>
  "truthy_opt x = (case x of None \<Rightarrow> False | Some t \<Rightarrow> t \<noteq> [])"

definition say :: "(call list \<Rightarrow> say_msg \<Rightarrow> say_outcome) \<Rightarrow> state \<Rightarrow> say_msg
    \<Rightarrow> (exn + string option) \<times> state" where
  \<comment> \<open>one call \<open>self.slack_say(text=..., blocks=...)\<close>\<close>
  "say f s m =
     (case f (calls s) m of
        SayRaises e \<Rightarrow> (Inl e, s\<lparr>calls := calls s @ [Say m]\<rparr>)
      | SayReturns r \<Rightarrow> (Inr r, s\<lparr>calls := calls s @ [Say m]\<rparr>))"

definition latest_step :: "env \<Rightarrow> state \<Rightarrow> string" where
  \<comment> \<open>\<open>planning_updates[-1] if planning_updates else "Processing..."\<close>, as formatted\<close>
  "latest_step env s =
     (if planning_updates s = [] then ''Processing...''
      else py_str env (last (planning_updates s)))"

section \<open>The streaming loop (lines 100-317)\<close>

subsection \<open>Status events of the \<open>response.status\<close> channel (lines 123-162)\<close>

definition refresh_primary :: "env \<Rightarrow> state \<Rightarrow> state" where
  \<comment> \<open>lines 132-161: the update is tried on every status message; an exception of
      \<open>chat_update\<close> is printed and dropped\<close>
  "refresh_primary env s =
     (case (slack_app env, planning_message_ts s, planning_channel s) of
        (Some a, Some ts, Some ch) \<Rightarrow>
          if ts \<noteq> [] \<and> ch \<noteq> []
          then s\<lparr>calls := calls s @ [ChatUpdate ch ts (ThinkingLatest (latest_step env s))]\<rparr>
          else s
      | _ \<Rightarrow> s)"

definition handle_status_event :: "env \<Rightarrow> state \<Rightarrow> json \<Rightarrow> (exn + unit) \<times> state" where
  "handle_status_event env s json_data =
     (case py_contains json_data ''message'' of
        Inl e \<Rightarrow> (Inl e, s)
      | Inr False \<Rightarrow> (Inr (), s)
      | Inr True \<Rightarrow>
          (case py_getitem json_data ''message'' of
             Inl e \<Rightarrow> (Inl e, s)
           | Inr status_msg \<Rightarrow>
               (Inr (),
                refresh_primary env
                  (s\<lparr>planning_updates := planning_updates s @ [status_msg]\<rparr>))))"

subsection \<open>Message deltas (lines 170-233)\<close>

definition handle_text :: "state \<Rightarrow> json \<Rightarrow> exn + state" where
  \<comment> \<open>lines 178-184: \<open>current_thinking += text_delta\<close> raises unless the delta is a str\<close>
  "handle_text s content_item =
     bind (py_get content_item ''text'' (JStr [])) (\<lambda>text_delta.
       if truthy text_delta
       then (case text_delta of
               JStr t \<Rightarrow> Inr (s\<lparr>current_thinking := current_thinking s @ t\<rparr>)
             | _ \<Rightarrow> Inl TypeError)
       else Inr s)"

definition handle_tool_use :: "env \<Rightarrow> state \<Rightarrow> json \<Rightarrow> exn + state" where
  \<comment> \<open>lines 187-202; the walk over the tool input (lines 196-202) only prints\<close>
  "handle_tool_use env s content_item =
     bind (py_get content_item ''tool_use'' (JObj [])) (\<lambda>tool_data.
     bind (py_get tool_data ''name'' (JStr ''unknown'')) (\<lambda>tool_name.
       if \<not> py_in_list tool_name (tools_used s)
       then Inr (s\<lparr>tools_used := tools_used s @ [tool_name],
                   planning_updates :=
                     planning_updates s @ [JStr (''Using '' @ py_str env tool_name)]\<rparr>)
       else Inr s))"

definition handle_tool_result :: "state \<Rightarrow> json \<Rightarrow> exn + state" where
  \<comment> \<open>lines 205-233: every statement after the \<open>get\<close> is guarded by \<open>DEBUG\<close>, which is
      \<open>False\<close>\<close>
  "handle_tool_result s content_item =
     bind (py_get content_item ''tool_result'' (JObj [])) (\<lambda>tool_result. Inr s)"

definition handle_content_item :: "env \<Rightarrow> state \<Rightarrow> json \<Rightarrow> exn + state" where
  "handle_content_item env s content_item =
     bind (py_get content_item ''type'' JNull) (\<lambda>ty.
       if py_eq ty (JStr ''text'') then handle_text s content_item
       else if py_eq ty (JStr ''tool_use'') then handle_tool_use env s content_item
       else if py_eq ty (JStr ''tool_result'') then handle_tool_result s content_item
       else Inr s)"

fun handle_content_items :: "env \<Rightarrow> state \<Rightarrow> json list \<Rightarrow> exn + state" where
  \<comment> \<open>\<open>for content_item in delta['content']\<close>\<close>
  "handle_content_items env s [] = Inr s"
| "handle_content_items env s (content_item # rest) =
     bind (handle_content_item env s content_item) (\<lambda>s'. handle_content_items env s' rest)"

definition handle_delta :: "env \<Rightarrow> state \<Rightarrow> json \<Rightarrow> exn + state" where
  "handle_delta env s json_data =
     bind (py_get json_data ''delta'' (JObj [])) (\<lambda>delta.
     bind (py_contains delta ''content'') (\<lambda>has_content.
       if has_content
       then bind (py_getitem delta ''content'') (\<lambda>content.
            bind (py_iter content) (\<lambda>items. handle_content_items env s items))
       else Inr s))"

subsection \<open>Objects without an \<open>object\<close> field (lines 236-314)\<close>

definition fallback_progress :: "env \<Rightarrow> state \<Rightarrow> (exn + unit) \<times> state" where
  \<comment> \<open>lines 290-305, inside the handler of the update: nothing catches what
      \<open>slack_say\<close> raises here\<close>
  "fallback_progress env s =
     (case slack_say env of
        None \<Rightarrow> (Inr (), s)
      | Some f \<Rightarrow>
          (case say f s (ProgressUpdate (map (py_str env) (last_n 3 (planning_updates s)))) of
             (Inl e, s') \<Rightarrow> (Inl e, s')
           | (Inr r, s') \<Rightarrow> (Inr (), s')))"

definition refresh_secondary :: "env \<Rightarrow> state \<Rightarrow> (exn + unit) \<times> state" where
  \<comment> \<open>lines 251-305: the update is tried on every second planning step\<close>
  "refresh_secondary env s =
     (case (slack_app env, planning_message_ts s) of
        (Some a, Some ts) \<Rightarrow>
          if ts \<noteq> [] \<and> length (planning_updates s) mod 2 = 0
          then (case channel_id a of
                  None \<Rightarrow> (Inr (), s)
                | Some channel \<Rightarrow>
                    if channel \<noteq> []
                    then let msg = PlanningNext (length (planning_updates s)) (latest_step env s);
                             s' = s\<lparr>calls := calls s @ [ChatUpdate channel ts msg]\<rparr>
                         in (case chat_update a (calls s) channel ts msg of
                               None \<Rightarrow> (Inr (), s')
                             | Some e \<Rightarrow> fallback_progress env s')
                    else (Inr (), s))
          else (Inr (), s)
      | _ \<Rightarrow> (Inr (), s))"

definition handle_untyped :: "env \<Rightarrow> state \<Rightarrow> json \<Rightarrow> (exn + unit) \<times> state" where
  \<comment> \<open>lines 237-314; the \<open>tool_metadata\<close> part (lines 308-314) only prints\<close>
  "handle_untyped env s json_data =
     (case py_contains json_data ''status'' of
        Inl e \<Rightarrow> (Inl e, s)
      | Inr False \<Rightarrow> (Inr (), s)
      | Inr True \<Rightarrow>
          (case (py_get json_data ''status'' (JStr []),
                 py_get json_data ''status_message'' (JStr [])) of
             (Inr status, Inr status_msg) \<Rightarrow>
               if truthy status \<and> \<not> py_in_list status [JStr ''REASONING_AGENT_STOP'']
               then if truthy status_msg
                    then refresh_secondary env
                           (s\<lparr>planning_updates := planning_updates s @ [status_msg]\<rparr>)
                    else (Inr (), s)
               else (Inr (), s)
           | (Inl e, _) \<Rightarrow> (Inl e, s)
           | (_, Inl e) \<Rightarrow> (Inl e, s)))"

subsection \<open>One decoded payload, one line, the loop\<close>

definition process_json :: "env \<Rightarrow> state \<Rightarrow> json \<Rightarrow> (exn + unit) \<times> state" where
  \<comment> \<open>lines 122-314, the body of the \<open>try\<close> after \<open>json.loads\<close>\<close>
  "process_json env s json_data =
     (if current_event s = Some ''response.status'' then handle_status_event env s json_data
      else if current_event s = Some ''response'' then (Inr (), s)
      else (case py_get json_data ''object'' JNull of
              Inl e \<Rightarrow> (Inl e, s)
            | Inr obj \<Rightarrow>
                if py_eq obj (JStr ''message.delta'')
                then (case handle_delta env s json_data of
                        Inl e \<Rightarrow> (Inl e, s)
                      | Inr s' \<Rightarrow> (Inr (), s'))
                else if obj = JNull then handle_untyped env s json_data
                else (Inr (), s)))"

datatype flow = Next | Stop

definition process_line :: "env \<Rightarrow> state \<Rightarrow> line_read \<Rightarrow> (exn + flow) \<times> state" where
  \<comment> \<open>lines 101-317, one turn of the \<open>for\<close> loop: \<open>Next\<close> goes on to the following line,
      \<open>Stop\<close> is the \<open>break\<close> of line 117\<close>
  "process_line env s l =
     (case l of
        ReadError e \<Rightarrow> (Inl e, s)
      | BadUtf8 \<Rightarrow> (Inl UnicodeDecodeError, s\<lparr>line_count := line_count s + 1\<rparr>)
      | Text line_decoded \<Rightarrow>
          if line_decoded = [] then (Inr Next, s\<lparr>line_count := line_count s + 1\<rparr>)
          else
            let s1 = s\<lparr>line_count := line_count s + 1,
                       response_lines := response_lines s @ [line_decoded]\<rparr>
            in if starts_with ''event: '' line_decoded
               then (Inr Next, s1\<lparr>current_event := Some (strip (drop 7 line_decoded))\<rparr>)
               else if starts_with ''data: '' line_decoded
               then let data_content = strip (drop 6 line_decoded)
                    in if data_content = ''[DONE]'' then (Inr Stop, s1)
                       else if \<not> starts_with ''['' data_content
                       then (case json_loads env data_content of
                               None \<Rightarrow> (Inr Next, s1)
                             | Some json_data \<Rightarrow>
                                 (case process_json env s1 json_data of
                                    (Inl JSONDecodeError, s2) \<Rightarrow> (Inr Next, s2)
                                  | (Inl e, s2) \<Rightarrow> (Inl e, s2)
                                  | (Inr u, s2) \<Rightarrow> (Inr Next, s2)))
                       else (Inr Next, s1)
               else (Inr Next, s1))"

fun stream_loop :: "env \<Rightarrow> state \<Rightarrow> line_read list \<Rightarrow> (exn + unit) \<times> state" where
  \<comment> \<open>\<open>for line in response.iter_lines()\<close>\<close>
  "stream_loop env s [] = (Inr (), s)"
| "stream_loop env s (l # ls) =
     (case process_line env s l of
        (Inl e, s') \<Rightarrow> (Inl e, s')
      | (Inr Stop, s') \<Rightarrow> (Inr (), s')
      | (Inr Next, s') \<Rightarrow> stream_loop env s' ls)"

section \<open>After the loop (lines 319-444)\<close>

definition parse_collected :: "env \<Rightarrow> state \<Rightarrow> (exn + json) \<times> state" where
  \<comment> \<open>lines 320-325\<close>
  "parse_collected env s =
     (let has_sse_data = list_ex (starts_with ''data: '') (response_lines s)
      in if has_sse_data
         then (parse_sse_response env (response_lines s),
               s\<lparr>calls := calls s @ [ParseSse (response_lines s)]\<rparr>)
         else (parse_json_response env (join [CHR 0x0A] (response_lines s)),
               s\<lparr>calls := calls s @ [ParseJson (join [CHR 0x0A] (response_lines s))]\<rparr>))"

definition dict_get :: "pydict \<Rightarrow> string \<Rightarrow> json \<Rightarrow> json" where
  \<comment> \<open>\<open>summary.get('key', default)\<close> on the dict the parser returns\<close>
  "dict_get d k dflt = (case map_of d k of None \<Rightarrow> dflt | Some v \<Rightarrow> v)"

definition store_details :: "state \<Rightarrow> pydict \<Rightarrow> state" where
  \<comment> \<open>lines 331-334\<close>
  "store_details s summary =
     s\<lparr>stored := Some \<lparr>planning_steps = planning_updates s,
                        sql_queries = dict_get summary ''sql_queries'' (JArr []),
                        verification_info = dict_get summary ''verification_info'' (JObj []),
                        verified_query_used =
                          dict_get summary ''verified_query_used'' (JBool False)\<rparr>\<rparr>"

definition completion_summary :: "pydict \<Rightarrow> completion_info" where
  \<comment> \<open>lines 344-356; the bare \<open>except\<close> drops the \<open>TypeError\<close> of \<open>len\<close>\<close>
  "completion_summary summary =
     (let has_verification =
            (truthy (dict_get summary ''verification_info'' JNull) \<or>
             truthy (dict_get summary ''verified_query_used'' JNull));
          sql = dict_get summary ''sql_queries'' (JArr [])
      in if has_verification then VerifiedBadge
         else if truthy sql
         then (case py_len sql of Inl e \<Rightarrow> NoInfo | Inr query_count \<Rightarrow> QueryCount query_count)
         else NoInfo)"

definition fallback_completed :: "env \<Rightarrow> state \<Rightarrow> (exn + unit) \<times> state" where
  \<comment> \<open>lines 398-412\<close>
  "fallback_completed env s =
     (case slack_say env of
        None \<Rightarrow> (Inr (), s)
      | Some f \<Rightarrow>
          (case say f s (CompletedAll (map (py_str env) (planning_updates s))) of
             (Inl e, s') \<Rightarrow> (Inl e, s')
           | (Inr r, s') \<Rightarrow> (Inr (), s')))"

definition update_completed ::
    "env \<Rightarrow> state \<Rightarrow> pydict \<Rightarrow> app \<Rightarrow> string \<Rightarrow> (exn + unit) \<times> state" where
  \<comment> \<open>lines 340-412: the update of the existing message; without a channel the source
      raises \<open>Exception("No channel available")\<close> into its own handler\<close>
  "update_completed env s summary a ts =
     (case planning_channel s of
        None \<Rightarrow> fallback_completed env s
      | Some channel \<Rightarrow>
          if channel \<noteq> []
          then let msg = Completed (length (planning_updates s)) (completion_summary summary);
                   s' = s\<lparr>calls := calls s @ [ChatUpdate channel ts msg]\<rparr>
               in (case chat_update a (calls s) channel ts msg of
                     None \<Rightarrow> (Inr (), s')
                   | Some e \<Rightarrow> fallback_completed env s')
          else fallback_completed env s)"

definition post_completed :: "env \<Rightarrow> state \<Rightarrow> (exn + unit) \<times> state" where
  \<comment> \<open>lines 414-427, the \<open>elif self.slack_say\<close> branch\<close>
  "post_completed env s =
     (case slack_say env of
        None \<Rightarrow> (Inr (), s)
      | Some f \<Rightarrow>
          (case say f s (CompletedCount (length (planning_updates s))) of
             (Inl e, s') \<Rightarrow> (Inl e, s')
           | (Inr r, s') \<Rightarrow> (Inr (), s')))"

definition finalize :: "env \<Rightarrow> state \<Rightarrow> pydict \<Rightarrow> (exn + unit) \<times> state" where
  \<comment> \<open>lines 337-427\<close>
  "finalize env s summary =
     (if planning_updates s \<noteq> []
      then (case (slack_app env, planning_message_ts s) of
              (Some a, Some ts) \<Rightarrow>
                if ts \<noteq> [] then update_completed env s summary a ts
                else post_completed env s
            | _ \<Rightarrow> post_completed env s)
      else (Inr (), s))"

definition after_stream :: "env \<Rightarrow> state \<Rightarrow> (exn + pydict) \<times> state" where
  \<comment> \<open>lines 319-444\<close>
  "after_stream env s =
     (case parse_collected env s of
        (Inl e, s1) \<Rightarrow> (Inl e, s1)
      | (Inr parsed_response, s1) \<Rightarrow>
          (let s2 = s1\<lparr>calls := calls s1 @ [ExtractSummary parsed_response]\<rparr>
           in case extract_summary env parsed_response of
                Inl e \<Rightarrow> (Inl e, s2)
              | Inr summary \<Rightarrow>
                  (case finalize env (store_details s2 summary) summary of
                     (Inl e, s3) \<Rightarrow> (Inl e, s3)
                   | (Inr u, s3) \<Rightarrow> (Inr summary, s3))))"

section \<open>The whole function (lines 21-477)\<close>

definition start_turn :: "env \<Rightarrow> state \<Rightarrow> (exn + unit) \<times> state" where
  \<comment> \<open>lines 67-99: the attributes are reset, the "Thinking..." message is posted before
      any line is read, the locals are initialised\<close>
  "start_turn env s =
     (let s1 = s\<lparr>planning_message_ts := None,
                 planning_channel :=
                   (case slack_app env of None \<Rightarrow> None | Some a \<Rightarrow> channel_id a),
                 response_lines := [], tools_used := [], current_thinking := [],
                 planning_updates := [], line_count := 0, current_event := None\<rparr>
      in case slack_say env of
           None \<Rightarrow> (Inr (), s1)
         | Some f \<Rightarrow>
             (case say f s1 Thinking of
                (Inl e, s2) \<Rightarrow> (Inl e, s2)
              | (Inr r, s2) \<Rightarrow>
                  (Inr (), if truthy_opt r then s2\<lparr>planning_message_ts := r\<rparr> else s2)))"

definition retrieve_body :: "env \<Rightarrow> state \<Rightarrow> transport \<Rightarrow> (exn + pydict) \<times> state" where
  \<comment> \<open>lines 56-444, the body of the outer \<open>try\<close>\<close>
  "retrieve_body env s t =
     (case t of
        PostRaises e \<Rightarrow> (Inl e, s)
      | BadStatus msg \<Rightarrow> (Inl (RequestException msg), s)
      | Stream lines \<Rightarrow>
          (case start_turn env s of
             (Inl e, s1) \<Rightarrow> (Inl e, s1)
           | (Inr u, s1) \<Rightarrow>
               (case stream_loop env s1 lines of
                  (Inl e, s2) \<Rightarrow> (Inl e, s2)
                | (Inr u', s2) \<Rightarrow> after_stream env s2)))"

definition handle_error :: "env \<Rightarrow> state \<Rightarrow> string \<Rightarrow> string \<Rightarrow> (exn + pydict) \<times> state" where
  \<comment> \<open>\<open>_handle_error\<close>, lines 465-477: what \<open>slack_say\<close> raises here leaves the function\<close>
  "handle_error env s error_msg slack_title =
     (let summary = [(''text'', JStr (''Error: '' @ error_msg)),
                     (''sql_queries'', JArr []),
                     (''citations'', JArr [])]
      in case slack_say env of
           None \<Rightarrow> (Inr summary, s)
         | Some f \<Rightarrow>
             (case say f s (ErrorNotice slack_title error_msg) of
                (Inl e, s') \<Rightarrow> (Inl e, s')
              | (Inr r, s') \<Rightarrow> (Inr summary, s')))"

definition recover :: "env \<Rightarrow> state \<Rightarrow> exn \<Rightarrow> (exn + pydict) \<times> state" where
  \<comment> \<open>the three handlers of the outer \<open>try\<close>, lines 446-463\<close>
  "recover env s e =
     (case e of
        Timeout \<Rightarrow>
          handle_error env s ''Request took longer than 120 seconds'' ''Request timeout''
      | RequestException m \<Rightarrow>
          handle_error env s (''Request error: '' @ exn_text env e) ''Request failed''
      | _ \<Rightarrow>
          handle_error env s (''Unexpected error: '' @ exn_text env e) ''Unexpected error'')"

definition retrieve_response :: "env \<Rightarrow> state \<Rightarrow> string \<Rightarrow> (exn + pydict) \<times> state" where
  \<comment> \<open>\<open>_retrieve_response(query)\<close>; \<open>Inl e\<close>: the exception \<open>e\<close> leaves the function\<close>
  "retrieve_response env s query =
     (case retrieve_body env s (requests_post env (agent_url env) (pat env) query) of
        (Inl e, s') \<Rightarrow> recover env s' e
      | (Inr summary, s') \<Rightarrow> (Inr summary, s'))"

definition chat :: "env \<Rightarrow> state \<Rightarrow> string \<Rightarrow> (exn + pydict) \<times> state" where
  \<comment> \<open>lines 492-498\<close>
  "chat env s query = retrieve_response env s query"

definition fresh :: state where
  \<comment> \<open>a \<open>CortexChat\<close> object on which no call has been made\<close>
  "fresh = \<lparr>calls = [], planning_message_ts = None, planning_channel = None, stored = None,
            response_lines = [], tools_used = [], current_thinking = [],
            planning_updates = [], line_count = 0, current_event = None\<rparr>"

section \<open>Concrete collaborators and streams\<close>

text \<open>
  A decoder that knows a few payloads (each decoded as \<open>json.loads\<close> decodes it), and an
  object configured with a post function and an app: every Slack call succeeds, the
  parser returns a summary with a text only.
\<close>

definition searching_payload :: string where
  "searching_payload = ''{\"message\":\"Searching\"}''"

definition tool_use_payload :: string where
  "tool_use_payload =
     ''{\"object\":\"message.delta\",\"delta\":{\"content\":[{\"type\":\"tool_use\",\"tool_use\":{\"name\":\"cortex_search\"}}]}}''"

definition status_payload :: "string \<Rightarrow> string" where
  "status_payload n = ''{\"status\":\"RUNNING\",\"status_message\":\"step '' @ n @ ''\"}''"

definition array_payload :: string where
  "array_payload = ''[{\"message\":\"Searching\"}]''"

definition demo_payloads :: "(string \<times> json) list" where
  "demo_payloads =
     [(searching_payload, JObj [(''message'', JStr ''Searching'')]),
      (tool_use_payload,
       JObj [(''object'', JStr ''message.delta''),
             (''delta'', JObj [(''content'',
                JArr [JObj [(''type'', JStr ''tool_use''),
                            (''tool_use'', JObj [(''name'', JStr ''cortex_search'')])]])])]),
      (status_payload ''1'',
       JObj [(''status'', JStr ''RUNNING''), (''status_message'', JStr ''step 1'')]),
      (status_payload ''2'',
       JObj [(''status'', JStr ''RUNNING''), (''status_message'', JStr ''step 2'')]),
      (status_payload ''3'',
       JObj [(''status'', JStr ''RUNNING''), (''status_message'', JStr ''step 3'')]),
      (status_payload ''4'',
       JObj [(''status'', JStr ''RUNNING''), (''status_message'', JStr ''step 4'')]),
      (status_payload ''5'',
       JObj [(''status'', JStr ''RUNNING''), (''status_message'', JStr ''step 5'')]),
      (array_payload, JArr [JObj [(''message'', JStr ''Searching'')]]),
      (''7'', JInt 7)]"

definition demo_app :: app where
  "demo_app = \<lparr>channel_id = Some ''C024BE91L'', chat_update = (\<lambda>h c t m. None)\<rparr>"

definition demo_env :: env where
  "demo_env =
     \<lparr>agent_url = ''https://account.example/api/v2/agents/a:run'', pat = ''token'',
      requests_post = (\<lambda>u p q. Stream []),
      json_loads = map_of demo_payloads,
      py_format = (\<lambda>v. ''<value>''),
      exn_text = (\<lambda>e. ''<exception>''),
      slack_say = Some (\<lambda>h m. SayReturns (Some ''1700000000.000100'')),
      slack_app = Some demo_app,
      parse_sse_response = (\<lambda>ls. Inr (JObj [])),
      parse_json_response = (\<lambda>d. Inr (JObj [])),
      extract_summary = (\<lambda>p. Inr [(''text'', JStr ''ok'')])\<rparr>"

definition with_stream :: "env \<Rightarrow> line_read list \<Rightarrow> env" where
  \<comment> \<open>the same collaborators, the request answered by the given lines\<close>
  "with_stream env ls = env\<lparr>requests_post := (\<lambda>u p q. Stream ls)\<rparr>"

definition failing_update_app :: app where
  \<comment> \<open>an app whose \<open>chat_update\<close> always raises (a stale handle, say)\<close>
  "failing_update_app =
     \<lparr>channel_id = Some ''C024BE91L'',
      chat_update = (\<lambda>h c t m. Some (OtherError ''message_not_found''))\<rparr>"

definition timeout_env :: env where
  \<comment> \<open>the request times out\<close>
  "timeout_env = demo_env\<lparr>requests_post := (\<lambda>u p q. PostRaises Timeout)\<rparr>"

definition unreachable_slack_env :: env where
  \<comment> \<open>the request times out and every post to Slack raises\<close>
  "unreachable_slack_env =
     timeout_env\<lparr>slack_say := Some (\<lambda>h m. SayRaises (OtherError ''channel_not_found''))\<rparr>"

definition failing_update_env :: env where
  \<comment> \<open>posts succeed, every update of the existing message raises\<close>
  "failing_update_env = demo_env\<lparr>slack_app := Some failing_update_app\<rparr>"

definition one_status_stream :: "line_read list" where
  \<comment> \<open>the stream of the first scenario of spec section 8\<close>
  "one_status_stream =
     [Text ''event: response.status'', Text (''data: '' @ searching_payload),
      Text ''data: [DONE]'']"

definition after_two_steps :: state where
  \<comment> \<open>a turn in progress: the message exists, two planning steps have been collected\<close>
  "after_two_steps =
     fresh\<lparr>calls := [Say Thinking],
           planning_message_ts := Some ''1700000000.000100'',
           planning_channel := Some ''C024BE91L'',
           planning_updates := [JStr ''step 1'', JStr ''step 2'']\<rparr>"


section \<open>Predicates used in the statements\<close>

fun is_parse_call :: "call \<Rightarrow> bool" where
  "is_parse_call (ParseSse ls) = True"
| "is_parse_call (ParseJson d) = True"
| "is_parse_call c = False"


definition is_error_summary :: "pydict \<Rightarrow> bool" where
  \<comment> \<open>a text that starts with \<open>Error:\<close>, and empty lists of queries and citations\<close>
  "is_error_summary d =
     ((case map_of d ''text'' of Some (JStr t) \<Rightarrow> starts_with ''Error:'' t | _ \<Rightarrow> False)
      \<and> map_of d ''sql_queries'' = Some (JArr [])
      \<and> map_of d ''citations'' = Some (JArr []))"


section \<open>The accumulator of the response parser\<close>









section \<open>Properties of the reading loop\<close>

lemma data_line_not_event:
  assumes "starts_with ''data: '' l"
  shows "l \<noteq> [] \<and> \<not> starts_with ''event: '' l"
  using assms by (cases l) (auto simp: starts_with_def)

lemma strip_done [simp]: "strip ''[DONE]'' = ''[DONE]''"
  by (simp add: strip_def py_isspace_def)

lemma process_done_line:
  assumes "starts_with ''data: '' d" and "strip (drop 6 d) = ''[DONE]''"
  shows "process_line env s (Text d) =
           (Inr Stop, s\<lparr>line_count := line_count s + 1,
                         response_lines := response_lines s @ [d]\<rparr>)"
  using assms data_line_not_event [OF assms(1)] by (simp add: process_line_def Let_def)

lemma stream_loop_done_suffix:
  assumes "starts_with ''data: '' d" and "strip (drop 6 d) = ''[DONE]''"
  shows "stream_loop env s (pre @ Text d # post) = stream_loop env s (pre @ [Text d])"
proof (induction pre arbitrary: s)
  case Nil
  show ?case by (simp add: process_done_line [OF assms])
next
  case (Cons l pre)
  show ?case
    by (simp add: Cons.IH split: prod.splits sum.splits flow.splits)
qed

text \<open>
  C5. A line \<open>data: [DONE]\<close> (whatever blanks surround the payload) ends the loop: read
  at the head of the remaining lines it is collected, counted, and nothing after it is
  read; and after any earlier lines, the outcome of the loop (result, state and calls)
  is the same whatever follows the line.
\<close>

theorem done_line_stops_loop:
  assumes "starts_with ''data: '' d" and "strip (drop 6 d) = ''[DONE]''"
  shows "stream_loop env s (Text d # post) =
           (Inr (), s\<lparr>line_count := line_count s + 1,
                       response_lines := response_lines s @ [d]\<rparr>)
         \<and> stream_loop env s (pre @ Text d # post) = stream_loop env s (pre @ [Text d])"
  using stream_loop_done_suffix [OF assms] by (simp add: process_done_line [OF assms])

theorem done_line_stops_loop_witness:
  "starts_with ''data: '' ''data: [DONE]'' \<and> strip (drop 6 ''data: [DONE]'') = ''[DONE]''
   \<and> stream_loop demo_env fresh
        ([Text ''event: response.status'', Text (''data: '' @ searching_payload)]
           @ Text ''data: [DONE]'' # [Text ''data: 7'']) =
      stream_loop demo_env fresh
        ([Text ''event: response.status'', Text (''data: '' @ searching_payload)]
           @ [Text ''data: [DONE]''])"
proof -
  have h1: "starts_with ''data: '' ''data: [DONE]''"
    by (simp add: starts_with_def)
  have h2: "strip (drop 6 ''data: [DONE]'') = ''[DONE]''"
    by simp
  show ?thesis
    using h1 h2 done_line_stops_loop [OF h1 h2, of demo_env fresh "[Text ''data: 7'']"
        "[Text ''event: response.status'', Text (''data: '' @ searching_payload)]"]
    by blast
qed



text \<open>
  C10. A \<open>data:\<close> line whose payload starts with \<open>[\<close> and is not \<open>[DONE]\<close> is only
  collected and counted: the decoder is not consulted (any other decoder gives the same
  outcome), and planning steps, tools, text and calls stay as they were.
\<close>

theorem bracket_payload_skipped:
  assumes "starts_with ''data: '' l"
    and "starts_with ''['' (strip (drop 6 l))"
    and "strip (drop 6 l) \<noteq> ''[DONE]''"
  shows "process_line env s (Text l) =
           (Inr Next, s\<lparr>line_count := line_count s + 1,
                         response_lines := response_lines s @ [l]\<rparr>)
         \<and> process_line (env\<lparr>json_loads := loads\<rparr>) s (Text l) = process_line env s (Text l)"
  using assms data_line_not_event [OF assms(1)] by (simp add: process_line_def Let_def)

theorem bracket_payload_skipped_witness:
  "starts_with ''data: '' (''data: '' @ array_payload)
   \<and> starts_with ''['' (strip (drop 6 (''data: '' @ array_payload)))
   \<and> strip (drop 6 (''data: '' @ array_payload)) \<noteq> ''[DONE]''
   \<and> json_loads demo_env array_payload = Some (JArr [JObj [(''message'', JStr ''Searching'')]])
   \<and> process_line demo_env fresh (Text (''data: '' @ array_payload)) =
       (Inr Next, fresh\<lparr>line_count := 1, response_lines := [''data: '' @ array_payload]\<rparr>)"
proof -
  have h1: "starts_with ''data: '' (''data: '' @ array_payload)"
    by (simp add: starts_with_def)
  have h2: "starts_with ''['' (strip (drop 6 (''data: '' @ array_payload)))"
    by (simp add: strip_def py_isspace_def array_payload_def starts_with_def)
  have h3: "strip (drop 6 (''data: '' @ array_payload)) \<noteq> ''[DONE]''"
    by (simp add: strip_def py_isspace_def array_payload_def)
  have h4: "json_loads demo_env array_payload =
              Some (JArr [JObj [(''message'', JStr ''Searching'')]])"
    by (simp add: demo_env_def demo_payloads_def searching_payload_def
        tool_use_payload_def status_payload_def array_payload_def)
  show ?thesis
    using h1 h2 h3 h4 bracket_payload_skipped [OF h1 h2 h3, of demo_env fresh]
    by (simp add: fresh_def)
qed

section \<open>The error path\<close>

lemma handle_error_none:
  assumes "slack_say env = None"
  shows "handle_error env s msg title =
           (Inr [(''text'', JStr (''Error: '' @ msg)), (''sql_queries'', JArr []),
                 (''citations'', JArr [])], s)"
  using assms by (simp add: handle_error_def)

lemma handle_error_some:
  assumes "slack_say env = Some f"
  shows "calls (snd (handle_error env s msg title)) = calls s @ [Say (ErrorNotice title msg)]
         \<and> fst (handle_error env s msg title) =
             (case f (calls s) (ErrorNotice title msg) of
                SayRaises e \<Rightarrow> Inl e
              | SayReturns r \<Rightarrow>
                  Inr [(''text'', JStr (''Error: '' @ msg)), (''sql_queries'', JArr []),
                       (''citations'', JArr [])])"
  using assms by (simp add: handle_error_def say_def split: say_outcome.splits)

lemma error_summary_shape:
  "is_error_summary [(''text'', JStr (''Error: '' @ msg)), (''sql_queries'', JArr []),
                     (''citations'', JArr [])]"
  by (simp add: is_error_summary_def starts_with_def)

lemma recover_is_handle_error:
  "\<exists>title msg. recover env s e = handle_error env s msg title"
  by (cases e) (auto simp: recover_def)

text \<open>
  C1 (as amended). When the transport call fails (\<open>requests.post\<close> raises anything, or the
  status is not 2xx), no line is read and the only call made is the error notification:
  none without a post function, exactly one with it. Without a post function, or when
  that one post returns, the function returns a summary whose text starts with
  \<open>Error:\<close> and whose queries and citations are empty. When the post raises, its
  exception leaves the function.
\<close>

theorem transport_failure_summary:
  assumes "requests_post env (agent_url env) (pat env) query = PostRaises e
           \<or> requests_post env (agent_url env) (pat env) query = BadStatus m"
  shows "(slack_say env = None \<longrightarrow>
            calls (snd (chat env s query)) = calls s
            \<and> (\<exists>summary. fst (chat env s query) = Inr summary \<and> is_error_summary summary))
         \<and> (\<forall>f. slack_say env = Some f \<longrightarrow>
              (\<exists>title msg.
                 calls (snd (chat env s query)) = calls s @ [Say (ErrorNotice title msg)]
                 \<and> (\<forall>r. f (calls s) (ErrorNotice title msg) = SayReturns r \<longrightarrow>
                       (\<exists>summary. fst (chat env s query) = Inr summary
                                   \<and> is_error_summary summary))
                 \<and> (\<forall>e'. f (calls s) (ErrorNotice title msg) = SayRaises e' \<longrightarrow>
                       fst (chat env s query) = Inl e')))"
proof -
  from assms obtain e0 where body:
    "retrieve_body env s (requests_post env (agent_url env) (pat env) query) = (Inl e0, s)"
    by (auto simp: retrieve_body_def)
  obtain title msg where rec: "recover env s e0 = handle_error env s msg title"
    using recover_is_handle_error by blast
  have chat: "chat env s query = handle_error env s msg title"
    by (simp add: chat_def retrieve_response_def body rec)
  show ?thesis
  proof (intro conjI impI allI)
    assume "slack_say env = None"
    then show "calls (snd (chat env s query)) = calls s"
      by (simp add: chat handle_error_none)
  next
    assume "slack_say env = None"
    then show "\<exists>summary. fst (chat env s query) = Inr summary \<and> is_error_summary summary"
      using error_summary_shape by (simp add: chat handle_error_none)
  next
    fix f assume f: "slack_say env = Some f"
    show "\<exists>title msg.
            calls (snd (chat env s query)) = calls s @ [Say (ErrorNotice title msg)]
            \<and> (\<forall>r. f (calls s) (ErrorNotice title msg) = SayReturns r \<longrightarrow>
                  (\<exists>summary. fst (chat env s query) = Inr summary \<and> is_error_summary summary))
            \<and> (\<forall>e'. f (calls s) (ErrorNotice title msg) = SayRaises e' \<longrightarrow>
                  fst (chat env s query) = Inl e')"
      using handle_error_some [OF f, of s msg title] error_summary_shape [of msg]
      by (intro exI [of _ title] exI [of _ msg]) (simp add: chat)
  qed
qed

text \<open>
  The claim as stated (the operation never raises) fails when the request times out and
  the post of the error notification raises: the second exception leaves the function.
\<close>

theorem transport_failure_raises_counterexample:
  "requests_post unreachable_slack_env (agent_url unreachable_slack_env)
      (pat unreachable_slack_env) ''How many tickets?'' = PostRaises Timeout
   \<and> fst (chat unreachable_slack_env fresh ''How many tickets?'')
       = Inl (OtherError ''channel_not_found'')"
  by (simp add: unreachable_slack_env_def timeout_env_def demo_env_def chat_def
      retrieve_response_def retrieve_body_def recover_def handle_error_def say_def fresh_def)

theorem transport_failure_summary_witness:
  "(requests_post timeout_env (agent_url timeout_env) (pat timeout_env) ''How many tickets?''
      = PostRaises Timeout
    \<or> requests_post timeout_env (agent_url timeout_env) (pat timeout_env) ''How many tickets?''
      = BadStatus ''500'')
   \<and> calls (snd (chat timeout_env fresh ''How many tickets?'')) =
       [Say (ErrorNotice ''Request timeout'' ''Request took longer than 120 seconds'')]
   \<and> fst (chat timeout_env fresh ''How many tickets?'') =
       Inr [(''text'', JStr ''Error: Request took longer than 120 seconds''),
            (''sql_queries'', JArr []), (''citations'', JArr [])]
   \<and> is_error_summary [(''text'', JStr ''Error: Request took longer than 120 seconds''),
            (''sql_queries'', JArr []), (''citations'', JArr [])]"
proof -
  have h: "requests_post timeout_env (agent_url timeout_env) (pat timeout_env)
             ''How many tickets?'' = PostRaises Timeout
           \<or> requests_post timeout_env (agent_url timeout_env) (pat timeout_env)
             ''How many tickets?'' = BadStatus ''500''"
    by (simp add: timeout_env_def)
  have f: "slack_say timeout_env = Some (\<lambda>h m. SayReturns (Some ''1700000000.000100''))"
    by (simp add: timeout_env_def demo_env_def)
  have c: "chat timeout_env fresh ''How many tickets?'' =
        (Inr [(''text'', JStr ''Error: Request took longer than 120 seconds''),
            (''sql_queries'', JArr []), (''citations'', JArr [])],
         fresh\<lparr>calls := [Say (ErrorNotice ''Request timeout'' ''Request took longer than 120 seconds'')]\<rparr>)"
    by (simp add: timeout_env_def demo_env_def chat_def
      retrieve_response_def retrieve_body_def recover_def handle_error_def say_def fresh_def)
  from transport_failure_summary [OF h, of fresh] f
  have "\<exists>summary. fst (chat timeout_env fresh ''How many tickets?'') = Inr summary
                   \<and> is_error_summary summary"
    by (auto simp: fresh_def)
  then show ?thesis using h by (simp add: c)
qed

section \<open>The calls of a turn\<close>

lemma refresh_primary_calls: "prefix (calls s) (calls (refresh_primary env s))"
  by (simp add: refresh_primary_def split: option.splits)

lemma handle_status_event_calls:
  "prefix (calls s) (calls (snd (handle_status_event env s j)))"
proof -
  have "prefix (calls s)
          (calls (refresh_primary env (s\<lparr>planning_updates := planning_updates s @ [m]\<rparr>)))" for m
    using refresh_primary_calls [of "s\<lparr>planning_updates := planning_updates s @ [m]\<rparr>" env]
    by simp
  then show ?thesis
    by (simp add: handle_status_event_def split: sum.splits bool.splits)
qed

lemma fallback_progress_calls: "prefix (calls s) (calls (snd (fallback_progress env s)))"
  by (simp add: fallback_progress_def say_def split: option.splits say_outcome.splits)

lemma refresh_secondary_calls: "prefix (calls s) (calls (snd (refresh_secondary env s)))"
proof -
  have "prefix (calls s) (calls (snd (fallback_progress env (s\<lparr>calls := calls s @ [c]\<rparr>))))" for c
    using fallback_progress_calls [of "s\<lparr>calls := calls s @ [c]\<rparr>" env]
    by (auto simp: prefix_def)
  then show ?thesis
    by (simp add: refresh_secondary_def Let_def split: option.splits)
qed

lemma handle_untyped_calls: "prefix (calls s) (calls (snd (handle_untyped env s j)))"
proof -
  have "prefix (calls s)
          (calls (snd (refresh_secondary env (s\<lparr>planning_updates := planning_updates s @ [m]\<rparr>))))" for m
    using refresh_secondary_calls [of "s\<lparr>planning_updates := planning_updates s @ [m]\<rparr>" env]
    by simp
  then show ?thesis
    by (simp add: handle_untyped_def split: sum.splits bool.splits)
qed

lemma handle_content_item_frame:
  assumes "handle_content_item env s item = Inr s'"
  shows "calls s' = calls s \<and> planning_message_ts s' = planning_message_ts s
         \<and> planning_channel s' = planning_channel s \<and> stored s' = stored s
         \<and> response_lines s' = response_lines s \<and> line_count s' = line_count s
         \<and> current_event s' = current_event s"
  using assms
  by (auto simp: handle_content_item_def handle_text_def handle_tool_use_def
      handle_tool_result_def bind_def split: sum.splits if_splits json.splits)

lemma handle_content_items_frame:
  assumes "handle_content_items env s items = Inr s'"
  shows "calls s' = calls s \<and> planning_message_ts s' = planning_message_ts s
         \<and> planning_channel s' = planning_channel s \<and> stored s' = stored s
         \<and> response_lines s' = response_lines s \<and> line_count s' = line_count s
         \<and> current_event s' = current_event s"
  using assms
proof (induction items arbitrary: s)
  case Nil
  then show ?case by simp
next
  case (Cons item items)
  from Cons.prems obtain s1 where s1: "handle_content_item env s item = Inr s1"
    and rest: "handle_content_items env s1 items = Inr s'"
    by (auto simp: bind_def split: sum.splits)
  from handle_content_item_frame [OF s1] Cons.IH [OF rest]
  show ?case by simp
qed

lemma handle_delta_frame:
  assumes "handle_delta env s j = Inr s'"
  shows "calls s' = calls s \<and> planning_message_ts s' = planning_message_ts s
         \<and> planning_channel s' = planning_channel s \<and> stored s' = stored s
         \<and> response_lines s' = response_lines s \<and> line_count s' = line_count s
         \<and> current_event s' = current_event s"
proof (cases "\<exists>items. handle_content_items env s items = Inr s'")
  case True
  then show ?thesis using handle_content_items_frame by blast
next
  case False
  with assms have "s' = s"
    by (auto simp: handle_delta_def bind_def split: sum.splits if_splits)
  then show ?thesis by simp
qed

lemma process_json_calls: "prefix (calls s) (calls (snd (process_json env s j)))"
proof (cases "current_event s = Some ''response.status''")
  case True
  then show ?thesis using handle_status_event_calls [of s env j] by (simp add: process_json_def)
next
  case ns: False
  show ?thesis
  proof (cases "current_event s = Some ''response''")
    case True
    then show ?thesis using ns by (simp add: process_json_def)
  next
    case nr: False
    show ?thesis
    proof (cases "py_get j ''object'' JNull")
      case (Inl e)
      then show ?thesis using ns nr by (simp add: process_json_def)
    next
      case (Inr obj)
      show ?thesis
      proof (cases "py_eq obj (JStr ''message.delta'')")
        case True
        show ?thesis
        proof (cases "handle_delta env s j")
          case (Inl e)
          then show ?thesis using ns nr Inr True by (simp add: process_json_def)
        next
          case d: (Inr s')
          then show ?thesis
            using ns nr Inr True handle_delta_frame [OF d] by (simp add: process_json_def)
        qed
      next
        case False
        then show ?thesis
          using ns nr Inr handle_untyped_calls [of s env j] by (simp add: process_json_def)
      qed
    qed
  qed
qed

lemma process_line_calls: "prefix (calls s) (calls (snd (process_line env s l)))"
proof (cases l)
  case (Text line)
  let ?s1 = "s\<lparr>line_count := line_count s + 1,
               response_lines := response_lines s @ [line]\<rparr>"
  show ?thesis
  proof (cases "json_loads env (strip (drop 6 line))")
    case None
    then show ?thesis using Text by (simp add: process_line_def Let_def)
  next
    case (Some j)
    obtain r s2 where pj: "process_json env ?s1 j = (r, s2)"
      by (cases "process_json env ?s1 j")
    have "prefix (calls s) (calls s2)"
      using process_json_calls [of ?s1 env j] unfolding pj by simp
    then show ?thesis
      using Text Some pj
      by (simp add: process_line_def Let_def split: sum.splits exn.splits)
  qed
qed (simp_all add: process_line_def)

lemma stream_loop_calls: "prefix (calls s) (calls (snd (stream_loop env s ls)))"
proof (induction ls arbitrary: s)
  case Nil
  show ?case by simp
next
  case (Cons l ls)
  obtain r s1 where step: "process_line env s l = (r, s1)"
    by (cases "process_line env s l")
  have p1: "prefix (calls s) (calls s1)"
    using process_line_calls [of s env l] by (simp add: step)
  show ?case
  proof (cases r)
    case (Inl e)
    then show ?thesis using p1 by (simp add: step)
  next
    case (Inr fl)
    then show ?thesis
      using p1 Cons.IH [of s1] by (cases fl) (auto simp: step intro: prefix_order.trans)
  qed
qed

lemma fallback_completed_calls:
  "\<exists>ext. calls (snd (fallback_completed env s)) = calls s @ ext \<and> filter is_parse_call ext = []"
  by (simp add: fallback_completed_def say_def split: option.splits say_outcome.splits)

lemma update_completed_calls:
  "\<exists>ext. calls (snd (update_completed env s summary a ts)) = calls s @ ext
         \<and> filter is_parse_call ext = []"
proof (cases "\<exists>ch. planning_channel s = Some ch \<and> ch \<noteq> []")
  case True
  then obtain ch where ch: "planning_channel s = Some ch" "ch \<noteq> []" by blast
  let ?msg = "Completed (length (planning_updates s)) (completion_summary summary)"
  let ?s' = "s\<lparr>calls := calls s @ [ChatUpdate ch ts ?msg]\<rparr>"
  show ?thesis
  proof (cases "chat_update a (calls s) ch ts ?msg")
    case None
    then show ?thesis using ch by (simp add: update_completed_def Let_def)
  next
    case (Some e)
    obtain ext where "calls (snd (fallback_completed env ?s')) = calls ?s' @ ext"
      and "filter is_parse_call ext = []"
      using fallback_completed_calls by blast
    then show ?thesis
      using ch Some by (simp add: update_completed_def Let_def)
  qed
next
  case False
  then have "update_completed env s summary a ts = fallback_completed env s"
    by (auto simp: update_completed_def split: option.splits)
  then show ?thesis using fallback_completed_calls [of env s] by simp
qed

lemma post_completed_calls:
  "\<exists>ext. calls (snd (post_completed env s)) = calls s @ ext \<and> filter is_parse_call ext = []"
  by (simp add: post_completed_def say_def split: option.splits say_outcome.splits)

lemma finalize_calls:
  "\<exists>ext. calls (snd (finalize env s summary)) = calls s @ ext \<and> filter is_parse_call ext = []"
  using update_completed_calls [of env s summary] post_completed_calls [of env s]
  by (simp add: finalize_def split: option.splits)

lemma after_stream_first_call:
  "\<exists>rest. calls (snd (after_stream env s)) =
            calls s @
            (if \<exists>l \<in> set (response_lines s). starts_with ''data: '' l
             then ParseSse (response_lines s)
             else ParseJson (join [CHR 0x0A] (response_lines s))) # rest
          \<and> filter is_parse_call rest = []"
proof -
  let ?c = "if \<exists>l \<in> set (response_lines s). starts_with ''data: '' l
            then ParseSse (response_lines s)
            else ParseJson (join [CHR 0x0A] (response_lines s))"
  obtain r s1 where pc: "parse_collected env s = (r, s1)"
    by (cases "parse_collected env s")
  have c1: "calls s1 = calls s @ [?c]"
    using pc by (auto simp: parse_collected_def Let_def list_ex_iff split: if_splits)
  show ?thesis
  proof (cases r)
    case (Inl e)
    then show ?thesis by (simp add: after_stream_def pc c1)
  next
    case (Inr parsed)
    let ?s2 = "s1\<lparr>calls := calls s1 @ [ExtractSummary parsed]\<rparr>"
    show ?thesis
    proof (cases "extract_summary env parsed")
      case (Inl e)
      then show ?thesis using Inr by (simp add: after_stream_def pc c1 Let_def)
    next
      case summ: (Inr summary)
      obtain rf s3 where fin: "finalize env (store_details ?s2 summary) summary = (rf, s3)"
        by (cases "finalize env (store_details ?s2 summary) summary")
      obtain ext where ext: "calls s3 = calls (store_details ?s2 summary) @ ext"
        and np: "filter is_parse_call ext = []"
        using finalize_calls [of env "store_details ?s2 summary" summary] unfolding fin
        by auto
      have cs: "calls (store_details ?s2 summary) = calls s @ [?c, ExtractSummary parsed]"
        by (simp add: store_details_def c1)
      have "snd (after_stream env s) = s3"
        using Inr summ fin by (simp add: after_stream_def pc Let_def split: sum.splits)
      then have "calls (snd (after_stream env s)) = calls s @ ?c # (ExtractSummary parsed # ext)"
        by (simp add: ext cs)
      then show ?thesis using np by (intro exI [of _ "ExtractSummary parsed # ext"]) simp
    qed
  qed
qed


text \<open>
  C9. After the loop, whatever lines were collected, the first call is one parser call
  and there is no other: \<open>parse_sse_response\<close> on the collected lines if and only if
  one of them starts with \<open>data: \<close>; otherwise \<open>parse_json_response\<close> on the lines
  joined with newlines, as one document.
\<close>

theorem summary_dispatch:
  "\<exists>rest. calls (snd (after_stream env s)) =
            calls s @
            (if \<exists>l \<in> set (response_lines s). starts_with ''data: '' l
             then ParseSse (response_lines s)
             else ParseJson (join [CHR 0x0A] (response_lines s))) # rest
          \<and> filter is_parse_call rest = []"
  by (rule after_stream_first_call)

lemma after_stream_calls: "prefix (calls s) (calls (snd (after_stream env s)))"
  using after_stream_first_call [of env s] by (auto simp: prefix_def)

lemma handle_error_calls: "prefix (calls s) (calls (snd (handle_error env s msg title)))"
  by (simp add: handle_error_def Let_def say_def split: option.splits say_outcome.splits)

lemma recover_calls: "prefix (calls s) (calls (snd (recover env s e)))"
  using recover_is_handle_error [of env s e] handle_error_calls by (metis)

lemma start_turn_calls:
  assumes "slack_say env = Some f"
  shows "calls (snd (start_turn env s)) = calls s @ [Say Thinking]"
  using assms by (simp add: start_turn_def Let_def say_def split: say_outcome.splits)

lemma chat_calls_after_start:
  assumes "requests_post env (agent_url env) (pat env) query = Stream lines"
  shows "prefix (calls (snd (start_turn env s))) (calls (snd (chat env s query)))"
proof -
  obtain r1 s1 where st: "start_turn env s = (r1, s1)"
    by (cases "start_turn env s")
  show ?thesis
  proof (cases r1)
    case (Inl e)
    then show ?thesis
      using recover_calls [of s1 env e]
      by (simp add: chat_def retrieve_response_def retrieve_body_def assms st)
  next
    case r1: (Inr u)
    obtain r2 s2 where lp: "stream_loop env s1 lines = (r2, s2)"
      by (cases "stream_loop env s1 lines")
    have p12: "prefix (calls s1) (calls s2)"
      using stream_loop_calls [of s1 env lines] by (simp add: lp)
    show ?thesis
    proof (cases r2)
      case (Inl e)
      have "prefix (calls s1) (calls (snd (recover env s2 e)))"
        using p12 recover_calls [of s2 env e] by (rule prefix_order.trans)
      then show ?thesis
        using Inl
        by (simp add: chat_def retrieve_response_def retrieve_body_def assms st r1 lp)
    next
      case r2: (Inr u')
      obtain r3 s3 where af: "after_stream env s2 = (r3, s3)"
        by (cases "after_stream env s2")
      have p23: "prefix (calls s2) (calls s3)"
        using after_stream_calls [of s2 env] by (simp add: af)
      have p13: "prefix (calls s1) (calls s3)"
        using p12 p23 by (rule prefix_order.trans)
      show ?thesis
      proof (cases r3)
        case (Inl e)
        have "prefix (calls s1) (calls (snd (recover env s3 e)))"
          using p13 recover_calls [of s3 env e] by (rule prefix_order.trans)
        then show ?thesis
          using Inl
          by (simp add: chat_def retrieve_response_def retrieve_body_def assms st r1 lp r2 af)
      next
        case (Inr summary)
        then show ?thesis
          using p13
          by (simp add: chat_def retrieve_response_def retrieve_body_def assms st r1 lp r2 af)
      qed
    qed
  qed
qed

text \<open>
  C4 (as amended). The "Thinking..." message is created eagerly, not on the first status
  event: whenever the request succeeds and a post function is configured, it is the
  first call of the turn, made before any line of the stream is read, for every stream
  (so also for a stream without any status event).
\<close>

theorem thinking_posted_before_reading:
  assumes "requests_post env (agent_url env) (pat env) query = Stream lines"
    and "slack_say env = Some f"
  shows "calls (snd (start_turn env s)) = calls s @ [Say Thinking]
         \<and> (\<exists>rest. calls (snd (chat env s query)) = calls s @ Say Thinking # rest)"
  using chat_calls_after_start [OF assms(1), of s] start_turn_calls [OF assms(2), of s]
  by (auto simp: prefix_def)

text \<open>The definitions that a run on concrete lines unfolds.\<close>

lemmas run_defs = chat_def retrieve_response_def retrieve_body_def start_turn_def say_def
  process_line_def process_json_def handle_status_event_def
  refresh_primary_def handle_untyped_def refresh_secondary_def fallback_progress_def
  after_stream_def parse_collected_def store_details_def finalize_def update_completed_def
  post_completed_def fallback_completed_def completion_summary_def dict_get_def
  latest_step_def py_str_def truthy_opt_def starts_with_def strip_def py_isspace_def
  fresh_def Let_def

text \<open>
  The claim as stated fails on the empty stream: no status event is ever observed, and
  the "Thinking..." message has been posted and its handle stored.
\<close>

theorem thinking_without_status_counterexample:
  "requests_post demo_env (agent_url demo_env) (pat demo_env) ''How many tickets?'' = Stream []
   \<and> calls (snd (chat demo_env fresh ''How many tickets?'')) =
       [Say Thinking, ParseJson [], ExtractSummary (JObj [])]
   \<and> planning_message_ts (snd (chat demo_env fresh ''How many tickets?'')) =
       Some ''1700000000.000100''"
  by (simp add: demo_env_def demo_app_def run_defs)

theorem thinking_posted_before_reading_witness:
  "requests_post demo_env (agent_url demo_env) (pat demo_env) ''How many tickets?'' = Stream []
   \<and> slack_say demo_env = Some (\<lambda>h m. SayReturns (Some ''1700000000.000100''))
   \<and> (\<exists>rest. calls (snd (chat demo_env fresh ''How many tickets?'')) =
         calls fresh @ Say Thinking # rest)"
proof -
  have h1: "requests_post demo_env (agent_url demo_env) (pat demo_env) ''How many tickets?''
              = Stream []"
    by (simp add: demo_env_def)
  have h2: "slack_say demo_env = Some (\<lambda>h m. SayReturns (Some ''1700000000.000100''))"
    by (simp add: demo_env_def)
  show ?thesis
    using h1 h2 thinking_posted_before_reading [OF h1 h2, of fresh] by blast
qed

theorem summary_dispatch_witness:
  "(\<exists>l \<in> set [''data: [DONE]'']. starts_with ''data: '' l)
   \<and> (\<exists>rest. calls (snd (after_stream demo_env (fresh\<lparr>response_lines := [''data: [DONE]'']\<rparr>))) =
         ParseSse [''data: [DONE]''] # rest \<and> filter is_parse_call rest = [])
   \<and> \<not> (\<exists>l \<in> set [''{'', ''}'']. starts_with ''data: '' l)
   \<and> (\<exists>rest. calls (snd (after_stream demo_env (fresh\<lparr>response_lines := [''{'', ''}'']\<rparr>))) =
         ParseJson [CHR ''{'', CHR 0x0A, CHR ''}''] # rest \<and> filter is_parse_call rest = [])"
proof -
  have h1: "\<exists>l \<in> set [''data: [DONE]'']. starts_with ''data: '' l"
    by (simp add: starts_with_def)
  have h2: "\<not> (\<exists>l \<in> set [''{'', ''}'']. starts_with ''data: '' l)"
    by (simp add: starts_with_def)
  show ?thesis
    using h1 h2 summary_dispatch [of demo_env "fresh\<lparr>response_lines := [''data: [DONE]'']\<rparr>"]
      summary_dispatch [of demo_env "fresh\<lparr>response_lines := [''{'', ''}'']\<rparr>"]
    by (simp add: fresh_def starts_with_def)
qed

section \<open>Failed updates of the existing message\<close>

lemma refresh_secondary_failed:
  assumes "slack_app env = Some a" and "channel_id a = Some ch" and "ch \<noteq> []"
    and "planning_message_ts s = Some ts" and "ts \<noteq> []"
    and "length (planning_updates s) mod 2 = 0"
    and "chat_update a (calls s) ch ts
           (PlanningNext (length (planning_updates s)) (latest_step env s)) = Some e"
  shows "refresh_secondary env s =
           fallback_progress env
             (s\<lparr>calls := calls s @
                [ChatUpdate ch ts
                   (PlanningNext (length (planning_updates s)) (latest_step env s))]\<rparr>)"
  using assms by (simp add: refresh_secondary_def Let_def)

lemma update_completed_failed:
  assumes "planning_channel s = Some ch" and "ch \<noteq> []"
    and "chat_update a (calls s) ch ts
           (Completed (length (planning_updates s)) (completion_summary summary)) = Some e"
  shows "update_completed env s summary a ts =
           fallback_completed env
             (s\<lparr>calls := calls s @
                [ChatUpdate ch ts
                   (Completed (length (planning_updates s)) (completion_summary summary))]\<rparr>)"
  using assms by (simp add: update_completed_def Let_def)

text \<open>
  C8 (as amended). With an app, a channel, an existing message and a post function: when
  the throttled refresh of the secondary (status-field) channel fails, exactly one new
  message listing the latest 3 planning steps is posted, and if that post raises, its
  exception leaves the refresh (the notifier does not absorb it). A refresh of the
  primary (\<open>response.status\<close>) channel only attempts the update: whatever the update
  does, no message is posted and nothing is raised. When the final update fails, one new
  message listing all planning steps is posted.
\<close>

theorem update_failure_fallback:
  assumes "slack_app env = Some a" and "channel_id a = Some ch" and "ch \<noteq> []"
    and "planning_message_ts s = Some ts" and "ts \<noteq> []"
    and "planning_channel s = Some ch"
    and "slack_say env = Some f"
  shows
    "(length (planning_updates s) mod 2 = 0
      \<and> chat_update a (calls s) ch ts
           (PlanningNext (length (planning_updates s)) (latest_step env s)) = Some e
      \<longrightarrow> calls (snd (refresh_secondary env s)) =
            calls s @
            [ChatUpdate ch ts (PlanningNext (length (planning_updates s)) (latest_step env s)),
             Say (ProgressUpdate (map (py_str env) (last_n 3 (planning_updates s))))]
          \<and> fst (refresh_secondary env s) =
              (case f (calls s @
                        [ChatUpdate ch ts
                           (PlanningNext (length (planning_updates s)) (latest_step env s))])
                      (ProgressUpdate (map (py_str env) (last_n 3 (planning_updates s)))) of
                 SayRaises e' \<Rightarrow> Inl e'
               | SayReturns r \<Rightarrow> Inr ()))
     \<and> refresh_primary env s =
         s\<lparr>calls := calls s @ [ChatUpdate ch ts (ThinkingLatest (latest_step env s))]\<rparr>
     \<and> (chat_update a (calls s) ch ts
           (Completed (length (planning_updates s)) (completion_summary summary)) = Some e
        \<longrightarrow> calls (snd (update_completed env s summary a ts)) =
              calls s @
              [ChatUpdate ch ts
                 (Completed (length (planning_updates s)) (completion_summary summary)),
               Say (CompletedAll (map (py_str env) (planning_updates s)))])"
proof (intro conjI impI)
  assume h: "length (planning_updates s) mod 2 = 0
      \<and> chat_update a (calls s) ch ts
           (PlanningNext (length (planning_updates s)) (latest_step env s)) = Some e"
  have r: "refresh_secondary env s =
           fallback_progress env
             (s\<lparr>calls := calls s @
                [ChatUpdate ch ts
                   (PlanningNext (length (planning_updates s)) (latest_step env s))]\<rparr>)"
    by (rule refresh_secondary_failed [OF assms(1-5) conjunct1 [OF h] conjunct2 [OF h]])
  show "calls (snd (refresh_secondary env s)) =
            calls s @
            [ChatUpdate ch ts (PlanningNext (length (planning_updates s)) (latest_step env s)),
             Say (ProgressUpdate (map (py_str env) (last_n 3 (planning_updates s))))]"
    by (simp add: r fallback_progress_def assms(7) say_def split: say_outcome.splits)
  show "fst (refresh_secondary env s) =
              (case f (calls s @
                        [ChatUpdate ch ts
                           (PlanningNext (length (planning_updates s)) (latest_step env s))])
                      (ProgressUpdate (map (py_str env) (last_n 3 (planning_updates s)))) of
                 SayRaises e' \<Rightarrow> Inl e'
               | SayReturns r \<Rightarrow> Inr ())"
    by (simp add: r fallback_progress_def assms(7) say_def split: say_outcome.splits)
next
  show "refresh_primary env s =
         s\<lparr>calls := calls s @ [ChatUpdate ch ts (ThinkingLatest (latest_step env s))]\<rparr>"
    using assms by (simp add: refresh_primary_def)
next
  assume h: "chat_update a (calls s) ch ts
           (Completed (length (planning_updates s)) (completion_summary summary)) = Some e"
  show "calls (snd (update_completed env s summary a ts)) =
              calls s @
              [ChatUpdate ch ts
                 (Completed (length (planning_updates s)) (completion_summary summary)),
               Say (CompletedAll (map (py_str env) (planning_updates s)))]"
    by (simp add: update_completed_failed [OF assms(6,3) h] fallback_completed_def assms(7)
        say_def split: say_outcome.splits)
qed

text \<open>
  The claim as stated fails on the stream of one \<open>response.status\<close> event, with an app
  whose updates raise: the refresh fails and no message with the latest steps follows
  (and the failed final update is followed by a message listing all steps).
\<close>

theorem primary_update_failure_counterexample:
  "chat_update failing_update_app [Say Thinking] ''C024BE91L'' ''1700000000.000100''
     (ThinkingLatest ''Searching'') = Some (OtherError ''message_not_found'')
   \<and> calls (snd (chat (with_stream failing_update_env one_status_stream) fresh
                   ''How many tickets?'')) =
       [Say Thinking,
        ChatUpdate ''C024BE91L'' ''1700000000.000100'' (ThinkingLatest ''Searching''),
        ParseSse [''event: response.status'', ''data: '' @ searching_payload, ''data: [DONE]''],
        ExtractSummary (JObj []),
        ChatUpdate ''C024BE91L'' ''1700000000.000100'' (Completed 1 NoInfo),
        Say (CompletedAll [''Searching''])]"
  by (simp add: with_stream_def failing_update_env_def failing_update_app_def demo_env_def
      demo_payloads_def searching_payload_def tool_use_payload_def status_payload_def
      array_payload_def one_status_stream_def run_defs)

theorem update_failure_fallback_witness:
  "slack_app failing_update_env = Some failing_update_app
   \<and> channel_id failing_update_app = Some ''C024BE91L''
   \<and> planning_message_ts after_two_steps = Some ''1700000000.000100''
   \<and> planning_channel after_two_steps = Some ''C024BE91L''
   \<and> length (planning_updates after_two_steps) mod 2 = 0
   \<and> chat_update failing_update_app (calls after_two_steps) ''C024BE91L'' ''1700000000.000100''
        (PlanningNext (length (planning_updates after_two_steps))
           (latest_step failing_update_env after_two_steps)) =
       Some (OtherError ''message_not_found'')
   \<and> calls (snd (refresh_secondary failing_update_env after_two_steps)) =
       [Say Thinking,
        ChatUpdate ''C024BE91L'' ''1700000000.000100'' (PlanningNext 2 ''step 2''),
        Say (ProgressUpdate [''step 1'', ''step 2''])]
   \<and> fst (refresh_secondary failing_update_env after_two_steps) = Inr ()"
proof -
  have h1: "slack_app failing_update_env = Some failing_update_app"
    by (simp add: failing_update_env_def demo_env_def)
  have h2: "channel_id failing_update_app = Some ''C024BE91L''"
    by (simp add: failing_update_app_def)
  have h3: "''C024BE91L'' \<noteq> []" by simp
  have h4: "planning_message_ts after_two_steps = Some ''1700000000.000100''"
    by (simp add: after_two_steps_def fresh_def)
  have h5: "''1700000000.000100'' \<noteq> []" by simp
  have h6: "planning_channel after_two_steps = Some ''C024BE91L''"
    by (simp add: after_two_steps_def fresh_def)
  have h7: "slack_say failing_update_env = Some (\<lambda>h m. SayReturns (Some ''1700000000.000100''))"
    by (simp add: failing_update_env_def demo_env_def)
  have h8: "length (planning_updates after_two_steps) mod 2 = 0"
    by (simp add: after_two_steps_def fresh_def)
  have h9: "chat_update failing_update_app (calls after_two_steps) ''C024BE91L''
        ''1700000000.000100''
        (PlanningNext (length (planning_updates after_two_steps))
           (latest_step failing_update_env after_two_steps)) =
       Some (OtherError ''message_not_found'')"
    by (simp add: failing_update_app_def)
  show ?thesis
    using h1 h2 h4 h6 h8 h9
      update_failure_fallback [OF h1 h2 h3 h4 h5 h6 h7,
        of "OtherError ''message_not_found''" "[]"]
    by (simp add: after_two_steps_def fresh_def latest_step_def py_str_def last_n_def)
qed

section \<open>The throttled refresh of the secondary channel\<close>

lemma py_eq_null_str [simp]: "py_eq JNull (JStr t) = False"
  by (simp add: py_eq.simps)













section \<open>Tool names\<close>

lemma py_eq_refl: "py_eq v v"
proof (induction v)
  case (JArr xs)
  then show ?case by (simp add: py_eq.simps list_all2_same)
next
  case (JObj d)
  have "\<exists>v. map_of d k = Some v \<and> py_eq v v" if "k \<in> fst ` set d" for k
  proof -
    from that obtain v where v: "map_of d k = Some v"
      by (metis domD dom_map_of_conv_image_fst)
    then have "(k, v) \<in> set d" by (rule map_of_SomeD)
    then have "py_eq v v" using JObj.IH by fastforce
    with v show ?thesis by blast
  qed
  then show ?case by (fastforce simp: py_eq.simps list_all_iff)
qed (simp_all add: py_eq.simps)

lemma py_in_list_append: "py_in_list n (xs @ ys) = (py_in_list n xs \<or> py_in_list n ys)"
  by (auto simp: py_in_list_def list_ex_iff)


lemma py_in_list_member: "n \<in> set xs \<Longrightarrow> py_in_list n xs"
  using py_eq_refl by (auto simp: py_in_list_def list_ex_iff)

lemma py_eq_str [simp]: "py_eq v (JStr t) = (v = JStr t)"
  by (cases v) (simp_all add: py_eq.simps)

text \<open>What one content item does to the tools and to the planning steps.\<close>

lemma handle_content_item_tools:
  assumes "handle_content_item env s item = Inr s'"
  shows "(tools_used s' = tools_used s \<and> planning_updates s' = planning_updates s)
         \<or> (\<exists>n. \<not> py_in_list n (tools_used s)
                 \<and> tools_used s' = tools_used s @ [n]
                 \<and> planning_updates s' =
                     planning_updates s @ [JStr (''Using '' @ py_str env n)])"
  using assms
  by (auto simp: handle_content_item_def handle_text_def handle_tool_use_def
      handle_tool_result_def bind_def split: sum.splits if_splits json.splits)




lemma handle_content_items_tools:
  assumes "handle_content_items env s items = Inr s'"
  shows "\<exists>new. tools_used s' = tools_used s @ new
              \<and> planning_updates s' =
                  planning_updates s @ map (\<lambda>n. JStr (''Using '' @ py_str env n)) new
              \<and> (\<forall>n \<in> set new. \<not> py_in_list n (tools_used s))
              \<and> (distinct (tools_used s) \<longrightarrow> distinct (tools_used s'))"
  using assms
proof (induction items arbitrary: s)
  case Nil
  then show ?case by simp
next
  case (Cons item items)
  from Cons.prems obtain s1 where s1: "handle_content_item env s item = Inr s1"
    and rest: "handle_content_items env s1 items = Inr s'"
    by (auto simp: bind_def split: sum.splits)
  obtain new1 where n1: "tools_used s1 = tools_used s @ new1"
    "planning_updates s1 =
       planning_updates s @ map (\<lambda>n. JStr (''Using '' @ py_str env n)) new1"
    "\<forall>n \<in> set new1. \<not> py_in_list n (tools_used s)"
    "distinct (tools_used s) \<longrightarrow> distinct (tools_used s1)"
  proof -
    from handle_content_item_tools [OF s1] show ?thesis
    proof
      assume "tools_used s1 = tools_used s \<and> planning_updates s1 = planning_updates s"
      then show ?thesis using that [of "[]"] by simp
    next
      assume "\<exists>n. \<not> py_in_list n (tools_used s) \<and> tools_used s1 = tools_used s @ [n]
                \<and> planning_updates s1 =
                    planning_updates s @ [JStr (''Using '' @ py_str env n)]"
      then obtain n where n: "\<not> py_in_list n (tools_used s)"
        "tools_used s1 = tools_used s @ [n]"
        "planning_updates s1 = planning_updates s @ [JStr (''Using '' @ py_str env n)]"
        by blast
      from n(1) have "n \<notin> set (tools_used s)" using py_in_list_member by blast
      then show ?thesis using that [of "[n]"] n by simp
    qed
  qed
  obtain new2 where n2: "tools_used s' = tools_used s1 @ new2"
    "planning_updates s' =
       planning_updates s1 @ map (\<lambda>n. JStr (''Using '' @ py_str env n)) new2"
    "\<forall>n \<in> set new2. \<not> py_in_list n (tools_used s1)"
    "distinct (tools_used s1) \<longrightarrow> distinct (tools_used s')"
    using Cons.IH [OF rest] by blast
  have "\<forall>n \<in> set (new1 @ new2). \<not> py_in_list n (tools_used s)"
    using n1(1,3) n2(3) by (auto simp: py_in_list_append)
  then show ?case
    using n1 n2 by (intro exI [of _ "new1 @ new2"]) simp
qed




text \<open>The same over every line of a stream: the loop never repeats a tool.\<close>

lemma handle_status_event_tools:
  "tools_used (snd (handle_status_event env s j)) = tools_used s"
  by (simp add: handle_status_event_def refresh_primary_def
      split: sum.splits bool.splits option.splits)

lemma fallback_progress_tools: "tools_used (snd (fallback_progress env s)) = tools_used s"
  by (simp add: fallback_progress_def say_def split: option.splits say_outcome.splits)

lemma refresh_secondary_tools: "tools_used (snd (refresh_secondary env s)) = tools_used s"
  by (simp add: refresh_secondary_def Let_def fallback_progress_tools split: option.splits)

lemma handle_untyped_tools: "tools_used (snd (handle_untyped env s j)) = tools_used s"
  by (simp add: handle_untyped_def refresh_secondary_tools split: sum.splits bool.splits)

lemma handle_delta_distinct:
  assumes "handle_delta env s j = Inr s'" and "distinct (tools_used s)"
  shows "distinct (tools_used s')"
proof (cases "\<exists>items. handle_content_items env s items = Inr s'")
  case True
  then show ?thesis using handle_content_items_tools assms(2) by blast
next
  case False
  with assms(1) have "s' = s"
    by (auto simp: handle_delta_def bind_def split: sum.splits if_splits)
  then show ?thesis using assms(2) by simp
qed

lemma process_json_distinct:
  assumes "distinct (tools_used s)"
  shows "distinct (tools_used (snd (process_json env s j)))"
proof (cases "\<exists>s'. handle_delta env s j = Inr s'")
  case True
  then obtain s' where d: "handle_delta env s j = Inr s'" by blast
  show ?thesis
    using assms handle_delta_distinct [OF d assms]
    by (simp add: process_json_def d handle_status_event_tools handle_untyped_tools
        split: sum.splits)
next
  case False
  then obtain e where "handle_delta env s j = Inl e"
    by (cases "handle_delta env s j") auto
  then show ?thesis
    using assms
    by (simp add: process_json_def handle_status_event_tools handle_untyped_tools
        split: sum.splits)
qed

lemma process_line_distinct:
  assumes "distinct (tools_used s)"
  shows "distinct (tools_used (snd (process_line env s l)))"
proof (cases l)
  case (Text line)
  let ?s1 = "s\<lparr>line_count := line_count s + 1,
               response_lines := response_lines s @ [line]\<rparr>"
  show ?thesis
  proof (cases "json_loads env (strip (drop 6 line))")
    case None
    then show ?thesis using Text assms by (simp add: process_line_def Let_def)
  next
    case (Some j)
    obtain r s2 where pj: "process_json env ?s1 j = (r, s2)"
      by (cases "process_json env ?s1 j")
    have "distinct (tools_used s2)"
      using process_json_distinct [of ?s1 env j] assms unfolding pj by simp
    then show ?thesis
      using Text Some pj assms
      by (simp add: process_line_def Let_def split: sum.splits exn.splits)
  qed
qed (simp_all add: process_line_def assms)

lemma stream_loop_distinct:
  assumes "distinct (tools_used s)"
  shows "distinct (tools_used (snd (stream_loop env s ls)))"
  using assms
proof (induction ls arbitrary: s)
  case Nil
  then show ?case by simp
next
  case (Cons l ls)
  obtain r s1 where step: "process_line env s l = (r, s1)"
    by (cases "process_line env s l")
  have d1: "distinct (tools_used s1)"
    using process_line_distinct [OF Cons.prems, of env l] by (simp add: step)
  show ?case
  proof (cases r)
    case (Inl e)
    then show ?thesis using d1 by (simp add: step)
  next
    case (Inr fl)
    then show ?thesis
      using d1 Cons.IH [OF d1] by (cases fl) (simp_all add: step)
  qed
qed

section \<open>Verification data\<close>








text \<open>
  In \<open>_retrieve_response\<close> itself, a content item of type \<open>tool_result\<close> changes
  nothing: the verification data of a turn is whatever the parser's summary holds.
\<close>

lemma tool_result_item_changes_nothing:
  assumes "py_get content_item ''type'' JNull = Inr (JStr ''tool_result'')"
  shows "handle_content_item env s content_item = Inr s"
  using assms
  by (cases content_item)
    (simp_all add: handle_content_item_def handle_tool_result_def bind_def
      split: option.splits)

end
